theory Spec2Isabelle
  imports Main
begin

section \<open>JavaScript values\<close>

text \<open>
  What \<^verbatim>\<open>JSON.parse\<close> and \<^verbatim>\<open>response.json()\<close> give, together with
  \<^verbatim>\<open>undefined\<close>, which reading an absent property gives. Numbers are integers here.
  The properties of an object are an association list; the first binding of a key is the
  object's property.
\<close>

datatype jsval =
  JUndefined | JNull | JBool bool | JNum int | JStr string
  | JArr "jsval list" | JObj "(string \<times> jsval) list"

text \<open>A number computed by the code: \<^verbatim>\<open>NaN\<close> or an integer.\<close>

datatype jsnum = NaN | Fin int

datatype exn = TypeError | RangeError

text \<open>The text of \<^verbatim>\<open>err.message\<close> is the engine's; this is how V8's begins.\<close>

fun message :: "exn \<Rightarrow> string" where
  "message TypeError = ''Cannot read properties of null''"
| "message RangeError = ''Invalid time value''"

definition bindE :: "exn + 'a \<Rightarrow> ('a \<Rightarrow> exn + 'b) \<Rightarrow> exn + 'b" where
  "bindE m f = (case m of Inl e \<Rightarrow> Inl e | Inr v \<Rightarrow> f v)"

fun truthy :: "jsval \<Rightarrow> bool" where
  "truthy JUndefined = False"
| "truthy JNull = False"
| "truthy (JBool b) = b"
| "truthy (JNum n) = (n \<noteq> 0)"
| "truthy (JStr s) = (s \<noteq> [])"
| "truthy (JArr xs) = True"
| "truthy (JObj kvs) = True"

text \<open>
  Reading a named property \<^verbatim>\<open>v.k\<close>, for the names the code reads (none of them is a
  property of a prototype): a \<^verbatim>\<open>TypeError\<close> on \<^verbatim>\<open>null\<close> and \<^verbatim>\<open>undefined\<close>,
  \<^verbatim>\<open>undefined\<close> on a primitive, an array or an object without the property.
\<close>

fun get_prop :: "jsval \<Rightarrow> string \<Rightarrow> exn + jsval" where
  "get_prop JUndefined k = Inl TypeError"
| "get_prop JNull k = Inl TypeError"
| "get_prop (JObj kvs) k = Inr (case map_of kvs k of None \<Rightarrow> JUndefined | Some v \<Rightarrow> v)"
| "get_prop v k = Inr JUndefined"

definition digit_char :: "nat \<Rightarrow> char" where
  "digit_char n = ''0123456789'' ! (n mod 10)"

fun show_nat :: "nat \<Rightarrow> string" where
  "show_nat n = (if n < 10 then [digit_char n] else show_nat (n div 10) @ [digit_char n])"

definition show_int :: "int \<Rightarrow> string" where
  "show_int i = (if i < 0 then CHR ''-'' # show_nat (nat (- i)) else show_nat (nat i))"

text \<open>Reading an indexed property \<^verbatim>\<open>v[i]\<close>.\<close>

fun get_index :: "jsval \<Rightarrow> nat \<Rightarrow> exn + jsval" where
  "get_index JUndefined i = Inl TypeError"
| "get_index JNull i = Inl TypeError"
| "get_index (JArr xs) i = Inr (if i < length xs then xs ! i else JUndefined)"
| "get_index (JStr s) i = Inr (if i < length s then JStr [s ! i] else JUndefined)"
| "get_index (JObj kvs) i = get_prop (JObj kvs) (show_nat i)"
| "get_index v i = Inr JUndefined"

text \<open>\<^verbatim>\<open>v && v.k\<close>: the value of the conjunction.\<close>

definition and_prop :: "jsval \<Rightarrow> string \<Rightarrow> exn + jsval" where
  "and_prop v k = (if truthy v then get_prop v k else Inr v)"

definition and_index :: "jsval \<Rightarrow> jsval \<Rightarrow> nat \<Rightarrow> exn + jsval" where
  "and_index c v i = (if truthy c then get_index v i else Inr c)"

fun join_comma :: "string list \<Rightarrow> string" where
  "join_comma [] = []"
| "join_comma [s] = s"
| "join_comma (s # ss) = s @ CHR '','' # join_comma ss"

text \<open>The conversion to a string that \<^verbatim>\<open>parseInt\<close> applies to its argument.\<close>

fun to_string :: "jsval \<Rightarrow> string" where
  "to_string JUndefined = ''undefined''"
| "to_string JNull = ''null''"
| "to_string (JBool b) = (if b then ''true'' else ''false'')"
| "to_string (JNum n) = show_int n"
| "to_string (JStr s) = s"
| "to_string (JArr xs) =
     join_comma (map (\<lambda>x. if x = JUndefined \<or> x = JNull then [] else to_string x) xs)"
| "to_string (JObj kvs) = ''[object Object]''"

definition is_space :: "char \<Rightarrow> bool" where
  "is_space c = (c \<in> set [CHR '' '', CHR 0x09, CHR 0x0A, CHR 0x0B, CHR 0x0C, CHR 0x0D])"

definition is_digit :: "char \<Rightarrow> bool" where
  "is_digit c = (c \<in> set ''0123456789'')"

definition digit_val :: "char \<Rightarrow> int" where
  "digit_val c = of_char c - 48"

definition digits_val :: "string \<Rightarrow> int" where
  "digits_val ds = foldl (\<lambda>acc c. acc * 10 + digit_val c) 0 ds"

text \<open>
  \<^verbatim>\<open>parseInt(string, 10)\<close>: leading white space, an optional sign, then the longest
  run of decimal digits; \<^verbatim>\<open>NaN\<close> when that run is empty.
\<close>

definition parseInt_str :: "string \<Rightarrow> jsnum" where
  "parseInt_str s =
     (let t = dropWhile is_space s;
          neg = (case t of [] \<Rightarrow> False | c # _ \<Rightarrow> c = CHR ''-'');
          u = (case t of [] \<Rightarrow> [] | c # r \<Rightarrow> if c = CHR ''-'' \<or> c = CHR ''+'' then r else t);
          ds = takeWhile is_digit u
      in if ds = [] then NaN else Fin (if neg then - digits_val ds else digits_val ds))"

definition parseInt :: "jsval \<Rightarrow> jsnum" where
  "parseInt v = parseInt_str (to_string v)"

section \<open>Session store (js/auth.js)\<close>

text \<open>
  The session store is the global object \<^verbatim>\<open>window.authStatus\<close>, its copy in
  \<^verbatim>\<open>localStorage\<close> under the key \<^verbatim>\<open>photoGalleryAuth\<close>, and the event
  \<^verbatim>\<open>auth:statusChanged\<close>. Instants are milliseconds since the epoch (\<open>int\<close>).
  An ISO date string and the instant it denotes are identified: \<^verbatim>\<open>toISOString\<close> and
  \<^verbatim>\<open>new Date(string)\<close> are inverse to each other on valid dates.

  A value read as \<^verbatim>\<open>tokenExpiry\<close> is one of: a falsy value (absent, \<^verbatim>\<open>null\<close>,
  the empty string), a truthy value that \<^verbatim>\<open>new Date\<close> turns into an invalid date, or a
  value that denotes an instant.
\<close>

datatype expiry = NoExpiry | BadExpiry | At int

text \<open>
  \<^verbatim>\<open>window.authStatus\<close>. The field \<open>token\<close> is \<open>None\<close> when the JavaScript
  value is \<^verbatim>\<open>undefined\<close> (the \<^verbatim>\<open>||\<close> chain of \<^verbatim>\<open>setAuthenticatedUser\<close> can
  produce it).
\<close>

record session =
  isAuthenticated :: bool
  username :: string
  token :: "string option"
  tokenExpiry :: expiry
  loading :: bool

text \<open>
  The argument of \<^verbatim>\<open>setAuthenticatedUser\<close>: the fields the function reads, each of
  them possibly absent. The fields \<^verbatim>\<open>username\<close>, \<^verbatim>\<open>token\<close> and \<^verbatim>\<open>tokenExpiry\<close>
  carry the prefix \<open>td_\<close> to keep them apart from those of the session.
  \<^verbatim>\<open>expires_in\<close> is any value, \<^verbatim>\<open>undefined\<close> when the object has none.
\<close>

record tokenData =
  td_username :: "string option"
  td_token :: "string option"
  id_token :: "string option"
  access_token :: "string option"
  expires_in :: jsval
  td_tokenExpiry :: expiry

text \<open>
  The claims of a decoded identity token that the code reads. The decoder
  \<^verbatim>\<open>JSON.parse(atob(part))\<close> belongs to the browser; it is a parameter \<open>jwt\<close> of the
  model, and \<open>None\<close> is the case where it throws.
\<close>

record payload =
  name :: "string option"
  email :: "string option"
  p_username :: "string option"

text \<open>
  The time zone of the browser, as the two abstract operations of ECMAScript that
  \<^verbatim>\<open>getSeconds\<close> and \<^verbatim>\<open>setSeconds\<close> use: \<open>localTime\<close> takes an instant to its
  reading on the local wall clock (\<^verbatim>\<open>LocalTime\<close>), \<open>utcTime\<close> takes a reading of the
  local wall clock to an instant (\<^verbatim>\<open>UTC\<close>). The zone is a parameter \<open>tz\<close> of the model.
\<close>

record zone =
  localTime :: "int \<Rightarrow> int"
  utcTime :: "int \<Rightarrow> int"

text \<open>
  What \<^verbatim>\<open>localStorage.getItem("photoGalleryAuth")\<close> holds when it is a non-empty
  string: text that \<^verbatim>\<open>JSON.parse\<close> rejects (or the text \<^verbatim>\<open>null\<close>, on which the
  property read throws), or the text of an object. An absent item and the empty string are
  both \<open>None\<close> in the field \<open>storage\<close> below: the test \<^verbatim>\<open>if (savedAuth)\<close> treats them
  alike.
\<close>

datatype stored = Malformed | Saved tokenData

text \<open>
  The state of the store: the session, the persisted copy, the snapshots of the session
  that the listeners of \<^verbatim>\<open>auth:statusChanged\<close> saw (the event is dispatched
  synchronously, and the listeners read \<^verbatim>\<open>window.authStatus\<close>), and the \<^verbatim>\<open>code\<close>
  parameter of the page URL.
\<close>

record auth_state =
  authStatus :: session
  storage :: "stored option"
  emitted :: "session list"
  url_code :: "string option"

definition initial_session :: session where
  "initial_session =
     \<lparr>isAuthenticated = False, username = [], token = Some [], tokenExpiry = NoExpiry,
      loading = False\<rparr>"

definition truthy_s :: "string option \<Rightarrow> bool" where
  "truthy_s v = (case v of None \<Rightarrow> False | Some s \<Rightarrow> s \<noteq> [])"

definition or_s :: "string option \<Rightarrow> string option \<Rightarrow> string option" where
  "or_s a b = (if truthy_s a then a else b)"

fun split_on :: "char \<Rightarrow> string \<Rightarrow> string list" where
  "split_on c [] = [[]]"
| "split_on c (x # xs) =
     (if x = c then [] # split_on c xs
      else (case split_on c xs of
              [] \<Rightarrow> [[x]]
            | p # ps \<Rightarrow> (x # p) # ps))"

definition dispatchEvent :: "auth_state \<Rightarrow> auth_state" where
  "dispatchEvent s = s\<lparr>emitted := emitted s @ [authStatus s]\<rparr>"

text \<open>\<^verbatim>\<open>JSON.parse(JSON.stringify(window.authStatus))\<close>: an undefined token is dropped.\<close>

definition stringify :: "session \<Rightarrow> tokenData" where
  "stringify a =
     \<lparr>td_username = Some (username a), td_token = token a, id_token = None,
      access_token = None, expires_in = JUndefined, td_tokenExpiry = tokenExpiry a\<rparr>"

text \<open>\<^verbatim>\<open>tokenData.expires_in ? parseInt(tokenData.expires_in, 10) : 3600\<close>\<close>

definition expiresIn :: "tokenData \<Rightarrow> jsnum" where
  "expiresIn td =
     (if truthy (expires_in td) then parseInt (expires_in td) else Fin 3600)"

text \<open>
  The \<^verbatim>\<open>else if (tokenData.id_token)\<close> branch: the middle one of three dot-separated
  parts is decoded; any failure leaves the default \<^verbatim>\<open>"User"\<close>.
\<close>

definition username_from_id_token :: "(string \<Rightarrow> payload option) \<Rightarrow> tokenData \<Rightarrow> string" where
  "username_from_id_token jwt td =
     (case id_token td of
        None \<Rightarrow> ''User''
      | Some t \<Rightarrow>
          if t = [] then ''User''
          else (let tokenParts = split_on (CHR ''.'') t in
                if length tokenParts = 3 then
                  (case jwt (tokenParts ! 1) of
                     None \<Rightarrow> ''User''
                   | Some p \<Rightarrow>
                       (case or_s (or_s (or_s (name p) (email p)) (p_username p))
                               (Some ''User'') of
                          None \<Rightarrow> ''User''
                        | Some u \<Rightarrow> u))
                else ''User''))"

definition extract_username :: "(string \<Rightarrow> payload option) \<Rightarrow> tokenData \<Rightarrow> string" where
  "extract_username jwt td =
     (case td_username td of
        None \<Rightarrow> username_from_id_token jwt td
      | Some u \<Rightarrow> if u \<noteq> [] then u else username_from_id_token jwt td)"

text \<open>
  \<^verbatim>\<open>setAuthenticatedUser\<close>. The statement
  \<^verbatim>\<open>expiryTime.setSeconds(expiryTime.getSeconds() + expiresIn)\<close> works on the reading
  of the local wall clock: it takes the local reading of \<open>now\<close>, adds the seconds to
  it, and takes the sum back to an instant. When \<^verbatim>\<open>expiresIn\<close> is \<^verbatim>\<open>NaN\<close> the date
  is invalid and \<^verbatim>\<open>toISOString\<close> throws a \<^verbatim>\<open>RangeError\<close>, before anything has been
  assigned. Instants are taken to lie in the range that a \<^verbatim>\<open>Date\<close> holds.
\<close>

definition setAuthenticatedUser ::
  "(string \<Rightarrow> payload option) \<Rightarrow> zone \<Rightarrow> int \<Rightarrow> tokenData \<Rightarrow> auth_state
     \<Rightarrow> exn + auth_state" where
  "setAuthenticatedUser jwt tz now td s =
     (case expiresIn td of
        NaN \<Rightarrow> Inl RangeError
      | Fin seconds \<Rightarrow>
          (let expiryTime = utcTime tz (localTime tz now + seconds * 1000);
               a = \<lparr>isAuthenticated = True,
                    username = extract_username jwt td,
                    token = or_s (or_s (id_token td) (access_token td)) (td_token td),
                    tokenExpiry = At expiryTime,
                    loading = False\<rparr>
           in Inr (dispatchEvent
                     (s\<lparr>authStatus := a, storage := Some (Saved (stringify a))\<rparr>))))"

definition clearAuthData :: "auth_state \<Rightarrow> auth_state" where
  "clearAuthData s =
     dispatchEvent
       (s\<lparr>authStatus :=
            \<lparr>isAuthenticated = False, username = [], token = Some [],
             tokenExpiry = NoExpiry, loading = False\<rparr>,
          storage := None\<rparr>)"

definition logoutUser :: "auth_state \<Rightarrow> auth_state" where
  "logoutUser s = clearAuthData s"

text \<open>The object that the code-exchange branch builds from the authorization code.\<close>

definition code_authData :: "string \<Rightarrow> tokenData" where
  "code_authData authCode =
     \<lparr>td_username = Some ''Authenticated User'',
      td_token = Some (''cognito-token-'' @ take 8 authCode),
      id_token = Some (''id-'' @ authCode),
      access_token = Some (''access-'' @ authCode),
      expires_in = JNum 3600,
      td_tokenExpiry = NoExpiry\<rparr>"

definition in_future :: "expiry \<Rightarrow> int \<Rightarrow> bool" where
  "in_future x now = (case x of At e \<Rightarrow> now < e | _ \<Rightarrow> False)"

definition set_loading :: "bool \<Rightarrow> auth_state \<Rightarrow> auth_state" where
  "set_loading b s = s\<lparr>authStatus := (authStatus s)\<lparr>loading := b\<rparr>\<rparr>"

text \<open>The last two statements of \<^verbatim>\<open>window.checkAuthFromHash\<close>.\<close>

definition finish_check :: "auth_state \<Rightarrow> auth_state" where
  "finish_check s = dispatchEvent (set_loading False s)"

text \<open>
  \<^verbatim>\<open>window.checkAuthFromHash\<close>. The run is synchronous; its two readings of the clock
  are the one instant \<open>now\<close>. In the restore branch the \<^verbatim>\<open>catch\<close> is reached by
  text that \<^verbatim>\<open>JSON.parse\<close> rejects, which is \<open>Malformed\<close>, and by an exception of
  \<^verbatim>\<open>setAuthenticatedUser\<close>. In the code-exchange branch nothing catches: an exception
  of \<^verbatim>\<open>setAuthenticatedUser\<close> would end the function with the state as it is then.
  The assignment to \<^verbatim>\<open>AWS.config.credentials\<close> concerns the SDK only and is left out.
\<close>

definition checkAuthFromHash ::
  "(string \<Rightarrow> payload option) \<Rightarrow> zone \<Rightarrow> int \<Rightarrow> auth_state \<Rightarrow> auth_state" where
  "checkAuthFromHash jwt tz now s =
     (let s1 = set_loading True s;
          fromStorage =
            (case storage s1 of
               None \<Rightarrow> s1
             | Some Malformed \<Rightarrow> clearAuthData s1
             | Some (Saved authData) \<Rightarrow>
                 if in_future (td_tokenExpiry authData) now
                 then (case setAuthenticatedUser jwt tz now authData s1 of
                         Inl err \<Rightarrow> clearAuthData s1
                       | Inr s2 \<Rightarrow> s2)
                 else clearAuthData s1)
      in (case url_code s1 of
            None \<Rightarrow> finish_check fromStorage
          | Some authCode \<Rightarrow>
              if authCode \<noteq> []
              then (case setAuthenticatedUser jwt tz now (code_authData authCode) s1 of
                      Inl err \<Rightarrow> s1
                    | Inr s2 \<Rightarrow> finish_check (s2\<lparr>url_code := None\<rparr>))
              else finish_check fromStorage))"

text \<open>\<^verbatim>\<open>redirectToLogin\<close> and \<^verbatim>\<open>redirectToRegister\<close>, up to the navigation.\<close>

definition redirect :: "auth_state \<Rightarrow> auth_state" where
  "redirect s = dispatchEvent (set_loading True s)"

text \<open>One run of the callback of the expiry interval.\<close>

definition expiry_tick :: "int \<Rightarrow> auth_state \<Rightarrow> auth_state" where
  "expiry_tick now s =
     (case tokenExpiry (authStatus s) of
        At e \<Rightarrow> if e \<le> now then clearAuthData s else s
      | _ \<Rightarrow> s)"

text \<open>
  A page load gives a fresh \<^verbatim>\<open>window.authStatus\<close> and a fresh set of listeners; the
  persisted copy survives.
\<close>

definition page_load :: "string option \<Rightarrow> auth_state \<Rightarrow> auth_state" where
  "page_load code s =
     s\<lparr>authStatus := initial_session, emitted := [], url_code := code\<rparr>"

definition initial_state :: auth_state where
  "initial_state =
     \<lparr>authStatus = initial_session, storage = None, emitted = [], url_code = None\<rparr>"

datatype op = Load "string option" | Check int | Logout | Watchdog int | Redirect

fun exec :: "(string \<Rightarrow> payload option) \<Rightarrow> zone \<Rightarrow> auth_state \<Rightarrow> op \<Rightarrow> auth_state" where
  "exec jwt tz s (Load code) = page_load code s"
| "exec jwt tz s (Check now) = checkAuthFromHash jwt tz now s"
| "exec jwt tz s Logout = logoutUser s"
| "exec jwt tz s (Watchdog now) = expiry_tick now s"
| "exec jwt tz s Redirect = redirect s"

definition run :: "(string \<Rightarrow> payload option) \<Rightarrow> zone \<Rightarrow> op list \<Rightarrow> auth_state" where
  "run jwt tz ops = foldl (exec jwt tz) initial_state ops"

fun check_times :: "op list \<Rightarrow> int list" where
  "check_times [] = []"
| "check_times (Check now # ops) = now # check_times ops"
| "check_times (_ # ops) = check_times ops"

definition no_jwt :: "string \<Rightarrow> payload option" where
  "no_jwt part = None"

text \<open>A zone with the one offset \<open>off\<close> (milliseconds ahead of UTC).\<close>

definition fixed_zone :: "int \<Rightarrow> zone" where
  "fixed_zone off = \<lparr>localTime = (\<lambda>t. t + off), utcTime = (\<lambda>l. l - off)\<rparr>"

text \<open>
  A zone whose clock is set back at the instant \<open>T\<close>, from the offset \<open>before\<close> to the
  smaller offset \<open>after\<close>. A local reading that occurs twice is taken with the offset
  before the change, as ECMAScript prescribes.
\<close>

definition set_back :: "int \<Rightarrow> int \<Rightarrow> int \<Rightarrow> zone" where
  "set_back T before after =
     \<lparr>localTime = (\<lambda>t. t + (if t < T then before else after)),
      utcTime = (\<lambda>l. if l - before < T then l - before else l - after)\<rparr>"

text \<open>
  Europe/Berlin and Antarctica/Troll around 2025-10-26T01:00:00Z (the instant
  1761440400000), when the first goes from UTC+2 to UTC+1 and the second from UTC+2 to UTC.
\<close>

definition berlin :: zone where
  "berlin = set_back 1761440400000 7200000 3600000"

definition troll :: zone where
  "troll = set_back 1761440400000 7200000 0"


section \<open>Gallery component (js/app.js)\<close>

subsection \<open>Photos\<close>

text \<open>
  A photo as \<^verbatim>\<open>fetchPhotos\<close> builds it. The property \<^verbatim>\<open>id\<close> is \<open>photo_id\<close> here.
  A field of the metadata is \<open>None\<close> when the object has no such property.
\<close>

record photo_metadata =
  format :: "jsval option"
  mode :: "jsval option"
  width :: "jsnum option"
  height :: "jsnum option"

record photo =
  photo_id :: jsval
  thumbnailUrl :: jsval
  url :: jsval
  metadata :: photo_metadata

text \<open>\<^verbatim>\<open>item.K ? item.K.S : ''\<close>\<close>

definition string_attr :: "jsval \<Rightarrow> string \<Rightarrow> exn + jsval" where
  "string_attr item k =
     bindE (get_prop item k) (\<lambda>v. if truthy v then get_prop v ''S'' else Inr (JStr []))"

text \<open>
  \<^verbatim>\<open>if (M.K && M.K.S) metadata.k = M.K.S\<close>, for \<^verbatim>\<open>M = item.Metadata.M\<close>.
\<close>

definition meta_string :: "jsval \<Rightarrow> string \<Rightarrow> exn + jsval option" where
  "meta_string m k =
     bindE (get_prop m k) (\<lambda>f.
     bindE (and_prop f ''S'') (\<lambda>c.
       if truthy c then bindE (get_prop f ''S'') (\<lambda>v. Inr (Some v)) else Inr None))"

text \<open>
  \<^verbatim>\<open>if (M.Size && M.Size.L && M.Size.L[0] && M.Size.L[1])\<close>, then both
  \<^verbatim>\<open>parseInt\<close> calls.
\<close>

definition meta_size :: "jsval \<Rightarrow> exn + (jsnum option \<times> jsnum option)" where
  "meta_size m =
     bindE (get_prop m ''Size'') (\<lambda>sz.
     bindE (and_prop sz ''L'') (\<lambda>l.
     bindE (and_index l l 0) (\<lambda>c0.
     bindE (and_index c0 l 1) (\<lambda>c1.
       if truthy c1 then
         bindE (get_index l 0) (\<lambda>l0.
         bindE (get_prop l0 ''N'') (\<lambda>n0.
         bindE (get_index l 1) (\<lambda>l1.
         bindE (get_prop l1 ''N'') (\<lambda>n1.
           Inr (Some (parseInt n0), Some (parseInt n1))))))
       else Inr (None, None)))))"

definition extract_metadata :: "jsval \<Rightarrow> exn + photo_metadata" where
  "extract_metadata item =
     bindE (get_prop item ''Metadata'') (\<lambda>md.
     bindE (and_prop md ''M'') (\<lambda>m.
       if truthy m then
         bindE (meta_string m ''Format'') (\<lambda>f.
         bindE (meta_string m ''Mode'') (\<lambda>mo.
         bindE (meta_size m) (\<lambda>(w, h).
           Inr \<lparr>format = f, mode = mo, width = w, height = h\<rparr>)))
       else Inr \<lparr>format = None, mode = None, width = None, height = None\<rparr>))"

text \<open>The callback of \<^verbatim>\<open>data.Items.map\<close>.\<close>

definition item_to_photo :: "jsval \<Rightarrow> exn + photo" where
  "item_to_photo item =
     bindE (string_attr item ''ThumbnailURL'') (\<lambda>thumbnailURL.
     bindE (string_attr item ''OriginalImageURL'') (\<lambda>originalURL.
     bindE (string_attr item ''ImageMetadataPK'') (\<lambda>photoId.
     bindE (extract_metadata item) (\<lambda>md.
       Inr \<lparr>photo_id = photoId, thumbnailUrl = thumbnailURL, url = originalURL,
            metadata = md\<rparr>))))"

fun map_items :: "jsval list \<Rightarrow> exn + photo list" where
  "map_items [] = Inr []"
| "map_items (item # items) =
     bindE (item_to_photo item) (\<lambda>p.
     bindE (map_items items) (\<lambda>ps. Inr (p # ps)))"

subsection \<open>The component\<close>

record jsfile =
  file_name :: string
  file_type :: string

text \<open>The callbacks that the component hands to \<^verbatim>\<open>setTimeout\<close>.\<close>

datatype callback = ClearModal | HideProcessing | ClearUploadSuccess

text \<open>
  The reactive fields of the Alpine component \<^verbatim>\<open>app\<close>, and the timeouts it has pending
  (due instant in milliseconds, callback) in the order of their registration. The field
  \<^verbatim>\<open>loading\<close> is \<open>loading'\<close> here, \<open>loading\<close> being the field of the session. The
  three fields that mirror the session are left out, with the listener that writes them.
\<close>

record app =
  photos :: "photo list"
  loading' :: bool
  error :: "string option"
  fileToUpload :: "jsfile option"
  uploading :: bool
  uploadProgress :: jsnum
  uploadError :: "string option"
  uploadSuccess :: bool
  processingImage :: bool
  processingProgress :: nat
  processingMessage :: string
  showModal :: bool
  selectedPhoto :: "photo option"
  modalLoading :: bool
  timers :: "(nat \<times> callback) list"

subsection \<open>fetchPhotos\<close>

text \<open>
  What the network gives to one call of \<^verbatim>\<open>fetchPhotos\<close>: \<^verbatim>\<open>fetch\<close> rejects (with
  the message of the error), or a response arrives, with its \<^verbatim>\<open>ok\<close> flag and a body
  that \<^verbatim>\<open>response.json()\<close> rejects (with a message) or parses.
\<close>

datatype body = NotJson string | Json jsval

datatype fetch_response = Rejected string | Response bool body

definition fetch_failed :: "string \<Rightarrow> app \<Rightarrow> app" where
  "fetch_failed msg a = a\<lparr>error := Some (''Failed to fetch photos: '' @ msg)\<rparr>"

definition fetchPhotos :: "fetch_response \<Rightarrow> app \<Rightarrow> app" where
  "fetchPhotos r a =
     (let a1 = a\<lparr>loading' := True, error := None\<rparr>;
          a2 =
            (case r of
               Rejected msg \<Rightarrow> fetch_failed msg a1
             | Response ok b \<Rightarrow>
                 if \<not> ok then fetch_failed ''Network response was not ok'' a1
                 else (case b of
                         NotJson msg \<Rightarrow> fetch_failed msg a1
                       | Json data \<Rightarrow>
                           (case and_prop data ''Items'' of
                              Inl e \<Rightarrow> fetch_failed (message e) a1
                            | Inr (JArr items) \<Rightarrow>
                                (case map_items items of
                                   Inl e \<Rightarrow> fetch_failed (message e) a1
                                 | Inr ps \<Rightarrow> a1\<lparr>photos := ps\<rparr>)
                            | Inr _ \<Rightarrow>
                                a1\<lparr>error := Some ''Unexpected API response format'',
                                   photos := []\<rparr>)))
      in a2\<lparr>loading' := False\<rparr>)"

text \<open>
  The two halves of a call, which other events can come between: the statements up to
  the \<^verbatim>\<open>await fetch\<close>, and those that run once the response has settled.
\<close>

definition fetch_start :: "app \<Rightarrow> app" where
  "fetch_start a = a\<lparr>loading' := True, error := None\<rparr>"

definition fetch_settle :: "fetch_response \<Rightarrow> app \<Rightarrow> app" where
  "fetch_settle r a =
     (let a2 =
            (case r of
               Rejected msg \<Rightarrow> fetch_failed msg a
             | Response ok b \<Rightarrow>
                 if \<not> ok then fetch_failed ''Network response was not ok'' a
                 else (case b of
                         NotJson msg \<Rightarrow> fetch_failed msg a
                       | Json data \<Rightarrow>
                           (case and_prop data ''Items'' of
                              Inl e \<Rightarrow> fetch_failed (message e) a
                            | Inr (JArr items) \<Rightarrow>
                                (case map_items items of
                                   Inl e \<Rightarrow> fetch_failed (message e) a
                                 | Inr ps \<Rightarrow> a\<lparr>photos := ps\<rparr>)
                            | Inr _ \<Rightarrow>
                                a\<lparr>error := Some ''Unexpected API response format'',
                                  photos := []\<rparr>)))
      in a2\<lparr>loading' := False\<rparr>)"

subsection \<open>Upload\<close>

definition handleFileSelect :: "jsfile option \<Rightarrow> app \<Rightarrow> app" where
  "handleFileSelect f a = a\<lparr>fileToUpload := f, uploadError := None, uploadSuccess := False\<rparr>"

text \<open>
  What one run of \<^verbatim>\<open>uploadFile\<close> reads from outside the component: the clock
  (\<^verbatim>\<open>Date.now()\<close>), the configured upload endpoint, the token of the session, and what
  the \<^verbatim>\<open>XMLHttpRequest\<close> reports: its progress events (\<^verbatim>\<open>lengthComputable\<close>,
  \<^verbatim>\<open>loaded\<close>, \<^verbatim>\<open>total\<close>) and then either \<^verbatim>\<open>onload\<close> with a status and a status
  text or \<^verbatim>\<open>onerror\<close>.
\<close>

datatype progress_event = ProgressEvent bool nat nat

datatype xhr_outcome = Loaded nat string | NetworkError

record upload_env =
  timestamp :: nat
  upload_endpoint :: string
  auth_token :: "string option"
  xhr_events :: "progress_event list"
  xhr_outcome :: xhr_outcome

record request =
  req_method :: string
  req_url :: string
  req_headers :: "(string \<times> string) list"
  req_body :: jsfile

definition getPresignedUrl :: "upload_env \<Rightarrow> jsfile \<Rightarrow> string" where
  "getPresignedUrl env f =
     (let fileName = show_nat (timestamp env) @ ''-'' @ file_name f
      in upload_endpoint env @ fileName)"

text \<open>\<^verbatim>\<open>Math.round((event.loaded / event.total) * 100)\<close>, which is \<^verbatim>\<open>NaN\<close> for 0/0.\<close>

definition percent :: "nat \<Rightarrow> nat \<Rightarrow> jsnum" where
  "percent loaded tot =
     (if tot = 0 then NaN else Fin (int ((200 * loaded + tot) div (2 * tot))))"

fun onprogress :: "app \<Rightarrow> progress_event \<Rightarrow> app" where
  "onprogress a (ProgressEvent lengthComputable loaded tot) =
     (if lengthComputable then a\<lparr>uploadProgress := percent loaded tot\<rparr> else a)"

definition uploadToS3 ::
  "upload_env \<Rightarrow> string \<Rightarrow> jsfile \<Rightarrow> app \<Rightarrow> (string + unit) \<times> app \<times> request" where
  "uploadToS3 env presignedUrl f a =
     (let req =
            \<lparr>req_method = ''PUT'', req_url = presignedUrl,
             req_headers =
               (''Content-Type'',
                if file_type f \<noteq> [] then file_type f else ''application/octet-stream'')
               # (case auth_token env of
                    None \<Rightarrow> []
                  | Some t \<Rightarrow> if t \<noteq> [] then [(''Authorization'', ''Bearer '' @ t)] else []),
             req_body = f\<rparr>;
          a1 = foldl onprogress a (xhr_events env)
      in (case xhr_outcome env of
            Loaded status statusText \<Rightarrow>
              if 200 \<le> status \<and> status < 300 then (Inr (), a1, req)
              else (Inl (''Upload failed with status: '' @ show_nat status @ '' - ''
                         @ statusText), a1, req)
          | NetworkError \<Rightarrow>
              (Inl ''A network error occurred during the upload.'', a1, req)))"

text \<open>The statements of \<^verbatim>\<open>startImageProcessingMonitor\<close> before the interval starts.\<close>

definition monitor_start :: "app \<Rightarrow> app" where
  "monitor_start a =
     a\<lparr>processingImage := True, processingProgress := 0,
       processingMessage := ''Processing image... This typically takes about 60 seconds''\<rparr>"

text \<open>
  \<^verbatim>\<open>uploadFile\<close>, with the requests it sent. On success it starts the monitor; the
  ticks of the interval come later and are the events of \<open>monitor_step\<close> below.
\<close>

definition uploadFile :: "upload_env \<Rightarrow> app \<Rightarrow> app \<times> request list" where
  "uploadFile env a =
     (case fileToUpload a of
        None \<Rightarrow> (a\<lparr>uploadError := Some ''Please select a file to upload.''\<rparr>, [])
      | Some f \<Rightarrow>
          (let a1 = a\<lparr>uploading := True, uploadProgress := Fin 0, uploadError := None,
                      uploadSuccess := False\<rparr>;
               presignedUrl = getPresignedUrl env f
           in (case uploadToS3 env presignedUrl f a1 of
                 (Inr _, a2, req) \<Rightarrow>
                   ((monitor_start (a2\<lparr>uploadSuccess := True, fileToUpload := None\<rparr>))
                      \<lparr>uploading := False\<rparr>, [req])
               | (Inl msg, a2, req) \<Rightarrow>
                   (a2\<lparr>uploadError := Some (''Upload failed: '' @ msg), uploading := False\<rparr>,
                    [req]))))"

subsection \<open>Timeouts\<close>

fun fire :: "callback \<Rightarrow> nat \<Rightarrow> app \<Rightarrow> app" where
  "fire ClearModal due a = a\<lparr>selectedPhoto := None, modalLoading := False\<rparr>"
| "fire HideProcessing due a =
     a\<lparr>processingImage := False, timers := timers a @ [(due + 5000, ClearUploadSuccess)]\<rparr>"
| "fire ClearUploadSuccess due a = a\<lparr>uploadSuccess := False\<rparr>"

text \<open>
  The pending timeout that fires next when the clock is at \<open>T\<close>: the earliest due one
  that is due by then, the first registered among those due at the same instant.
\<close>

fun next_due :: "nat \<Rightarrow> (nat \<times> callback) list \<Rightarrow> (nat \<times> callback) option" where
  "next_due T [] = None"
| "next_due T (x # xs) =
     (case next_due T xs of
        None \<Rightarrow> if fst x \<le> T then Some x else None
      | Some y \<Rightarrow> if fst x \<le> fst y then Some x else Some y)"

definition weight :: "nat \<times> callback \<Rightarrow> nat" where
  "weight x = (case snd x of HideProcessing \<Rightarrow> 2 | _ \<Rightarrow> 1)"

text \<open>Letting the clock reach \<open>T\<close>: every timeout due by then fires, in order.\<close>

function advance :: "nat \<Rightarrow> app \<Rightarrow> app" where
  "advance T a =
     (case next_due T (timers a) of
        None \<Rightarrow> a
      | Some x \<Rightarrow> advance T (fire (snd x) (fst x) (a\<lparr>timers := remove1 x (timers a)\<rparr>)))"
  by pat_completeness auto
termination
proof (relation "measure (\<lambda>(T, a). sum_list (map weight (timers a)))")
  show "wf (measure (\<lambda>(T, a). sum_list (map weight (timers a))))" by simp
next
  fix T :: nat and a :: app and x
  assume nd: "next_due T (timers a) = Some x"
  have mem: "\<And>ts y. next_due T ts = Some y \<Longrightarrow> y \<in> set ts"
  proof -
    fix ts y show "next_due T ts = Some y \<Longrightarrow> y \<in> set ts"
      by (induction ts arbitrary: y) (auto split: option.splits if_splits)
  qed
  from mem [OF nd] have s: "sum_list (map weight (timers a)) =
      weight x + sum_list (map weight (remove1 x (timers a)))"
    by (rule sum_list_map_remove1)
  have "sum_list (map weight
          (timers (fire (snd x) (fst x) (a\<lparr>timers := remove1 x (timers a)\<rparr>))))
        < weight x + sum_list (map weight (remove1 x (timers a)))"
    by (cases x; cases "snd x") (auto simp: weight_def)
  with s show "((T, fire (snd x) (fst x) (a\<lparr>timers := remove1 x (timers a)\<rparr>)), (T, a))
      \<in> measure (\<lambda>(T, a). sum_list (map weight (timers a)))"
    by simp
qed

subsection \<open>Modal\<close>

definition openPhotoModal :: "photo \<Rightarrow> app \<Rightarrow> app" where
  "openPhotoModal p a = a\<lparr>selectedPhoto := Some p, modalLoading := True, showModal := True\<rparr>"

text \<open>\<^verbatim>\<open>img.onload\<close> and \<^verbatim>\<open>img.onerror\<close> of the image that the modal loads.\<close>

definition image_settled :: "app \<Rightarrow> app" where
  "image_settled a = a\<lparr>modalLoading := False\<rparr>"

definition closePhotoModal :: "nat \<Rightarrow> app \<Rightarrow> app" where
  "closePhotoModal now a =
     a\<lparr>showModal := False, timers := timers a @ [(now + 300, ClearModal)]\<rparr>"

subsection \<open>Monitoring after an upload\<close>












section \<open>Auxiliary notions for the properties\<close>

text \<open>
  What the component persists: an object without \<^verbatim>\<open>id_token\<close>, \<^verbatim>\<open>access_token\<close>
  and \<^verbatim>\<open>expires_in\<close>, whose \<^verbatim>\<open>token\<close> is a non-empty string.
\<close>

definition good_store :: "stored option \<Rightarrow> bool" where
  "good_store st =
     (case st of
        Some (Saved td) \<Rightarrow>
          id_token td = None \<and> access_token td = None \<and> expires_in td = JUndefined \<and>
          truthy_s (td_token td)
      | _ \<Rightarrow> True)"

text \<open>
  The invariant of the store, relative to the zone and to the set \<open>T\<close> of the instants
  at which \<^verbatim>\<open>checkAuthFromHash\<close> has run: the expiry of an authenticated session is
  the instant whose local reading is 3600 seconds after the local reading of one of them.
\<close>

definition auth_inv :: "zone \<Rightarrow> int set \<Rightarrow> auth_state \<Rightarrow> bool" where
  "auth_inv tz T s =
     ((isAuthenticated (authStatus s) \<longrightarrow>
         truthy_s (token (authStatus s)) \<and>
         (\<exists>t\<in>T. tokenExpiry (authStatus s) =
                  At (utcTime tz (localTime tz t + 3600 * 1000)))) \<and>
      good_store (storage s))"

text \<open>A freshly loaded page that finds the session \<open>p\<close> persisted, and no code in its URL.\<close>

definition persisted :: "session \<Rightarrow> auth_state" where
  "persisted p =
     \<lparr>authStatus = initial_session, storage = Some (Saved (stringify p)), emitted = [],
      url_code = None\<rparr>"

text \<open>
  The property \<open>k\<close> of \<open>v\<close> as the listing contract describes it: \<^verbatim>\<open>undefined\<close> when
  \<open>v\<close> is not an object or has no such property. \<open>meta_field item k\<close> is
  \<^verbatim>\<open>item.Metadata.M.k\<close> read in this way; it is \<^verbatim>\<open>undefined\<close> exactly when the
  sub-field is absent.
\<close>

definition sub :: "jsval \<Rightarrow> string \<Rightarrow> jsval" where
  "sub v k =
     (case v of
        JObj kvs \<Rightarrow> (case map_of kvs k of None \<Rightarrow> JUndefined | Some x \<Rightarrow> x)
      | _ \<Rightarrow> JUndefined)"



subsection \<open>Sample data\<close>

definition empty_name_session :: session where
  "empty_name_session =
     \<lparr>isAuthenticated = True, username = [], token = Some ''t'', tokenExpiry = At 5000,
      loading = False\<rparr>"

definition alice_session :: session where
  "alice_session =
     \<lparr>isAuthenticated = True, username = ''alice'', token = Some ''id-xyz'',
      tokenExpiry = At 900000, loading = False\<rparr>"

text \<open>A session persisted with an expiry at 2025-10-26T00:36:40Z.\<close>

definition autumn_session :: session where
  "autumn_session =
     \<lparr>isAuthenticated = True, username = ''alice'', token = Some ''id-xyz'',
      tokenExpiry = At 1761439000000, loading = False\<rparr>"

text \<open>A login (return from the identity provider with a code) at 2025-10-26T01:10:00Z.\<close>

definition autumn_login :: "op list" where
  "autumn_login = [Load (Some ''abc''), Check 1761441000000]"

text \<open>The component as Alpine creates it.\<close>

definition app0 :: app where
  "app0 =
     \<lparr>photos = [], loading' = True, error = None, fileToUpload = None, uploading = False,
      uploadProgress = Fin 0, uploadError = None, uploadSuccess = False,
      processingImage = False, processingProgress = 0, processingMessage = [],
      showModal = False, selectedPhoto = None, modalLoading = False, timers = []\<rparr>"

definition photo1 :: photo where
  "photo1 =
     \<lparr>photo_id = JStr ''p1'', thumbnailUrl = JStr [], url = JStr [],
      metadata = \<lparr>format = None, mode = None, width = None, height = None\<rparr>\<rparr>"

definition listing1 :: jsval where
  "listing1 =
     JObj [(''Items'', JArr [JObj [(''ImageMetadataPK'', JObj [(''S'', JStr ''p1'')])]])]"



text \<open>The component after a first listing that holds one photo.\<close>

definition listed_app :: app where
  "listed_app = fetchPhotos (Response True (Json listing1)) app0"

definition pic :: jsfile where
  "pic = \<lparr>file_name = ''a.png'', file_type = ''image/png''\<rparr>"

definition env500 :: upload_env where
  "env500 =
     \<lparr>timestamp = 17, upload_endpoint = ''https://up/'', auth_token = Some ''tok'',
      xhr_events = [ProgressEvent True 1 2],
      xhr_outcome = Loaded 500 ''Internal Server Error''\<rparr>"

definition env204 :: upload_env where
  "env204 = env500\<lparr>xhr_outcome := Loaded 204 ''No Content''\<rparr>"

definition env_offline :: upload_env where
  "env_offline = env500\<lparr>xhr_outcome := NetworkError\<rparr>"




section \<open>Properties of the session store\<close>

declare advance.simps [simp del]

lemma dispatch_fields [simp]:
  "authStatus (dispatchEvent s) = authStatus s"
  "storage (dispatchEvent s) = storage s"
  "url_code (dispatchEvent s) = url_code s"
  "emitted (dispatchEvent s) = emitted s @ [authStatus s]"
  by (simp_all add: dispatchEvent_def)

lemma set_loading_fields [simp]:
  "storage (set_loading b s) = storage s"
  "url_code (set_loading b s) = url_code s"
  "emitted (set_loading b s) = emitted s"
  "authStatus (set_loading b s) = (authStatus s)\<lparr>loading := b\<rparr>"
  by (simp_all add: set_loading_def)

lemma finish_check_fields [simp]:
  "storage (finish_check s) = storage s"
  "url_code (finish_check s) = url_code s"
  "emitted (finish_check s) = emitted s @ [(authStatus s)\<lparr>loading := False\<rparr>]"
  "authStatus (finish_check s) = (authStatus s)\<lparr>loading := False\<rparr>"
  by (simp_all add: finish_check_def)

text \<open>With a number of seconds, \<^verbatim>\<open>setAuthenticatedUser\<close> returns.\<close>

lemma setAuthenticatedUser_Fin:
  assumes "expiresIn td = Fin n"
  shows "\<exists>s2. setAuthenticatedUser jwt tz now td s = Inr s2 \<and>
           authStatus s2 =
             \<lparr>isAuthenticated = True, username = extract_username jwt td,
              token = or_s (or_s (id_token td) (access_token td)) (td_token td),
              tokenExpiry = At (utcTime tz (localTime tz now + n * 1000)), loading = False\<rparr> \<and>
           storage s2 = Some (Saved (stringify (authStatus s2))) \<and>
           url_code s2 = url_code s \<and>
           emitted s2 = emitted s @ [authStatus s2]"
  using assms by (simp add: setAuthenticatedUser_def Let_def)

lemma setAuthenticatedUser_NaN:
  "expiresIn td = NaN \<Longrightarrow> setAuthenticatedUser jwt tz now td s = Inl RangeError"
  by (simp add: setAuthenticatedUser_def)

lemma clearAuthData_fields [simp]:
  "authStatus (clearAuthData s) = initial_session"
  "storage (clearAuthData s) = None"
  "url_code (clearAuthData s) = url_code s"
  "emitted (clearAuthData s) = emitted s @ [initial_session]"
  by (simp_all add: clearAuthData_def initial_session_def)

lemma stringify_fields [simp]:
  "td_username (stringify a) = Some (username a)"
  "td_token (stringify a) = token a"
  "id_token (stringify a) = None"
  "access_token (stringify a) = None"
  "expires_in (stringify a) = JUndefined"
  "td_tokenExpiry (stringify a) = tokenExpiry a"
  by (simp_all add: stringify_def)

lemma or_s_None [simp]: "or_s None b = b"
  by (simp add: or_s_def truthy_s_def)

text \<open>
  A persisted session has no \<^verbatim>\<open>id_token\<close>, so its user name is kept unless it is empty.
\<close>

lemma extract_username_stringify:
  "extract_username jwt (stringify p) = (if username p = [] then ''User'' else username p)"
  by (simp add: extract_username_def username_from_id_token_def)

text \<open>Whatever \<^verbatim>\<open>setAuthenticatedUser\<close> persists has a non-empty user name.\<close>

lemma extract_username_nonempty: "extract_username jwt td \<noteq> []"
  by (auto simp: extract_username_def username_from_id_token_def Let_def or_s_def truthy_s_def
      split: option.splits)

text \<open>A persisted session has no \<^verbatim>\<open>expires_in\<close>: the default applies.\<close>

lemma expiresIn_stringify [simp]: "expiresIn (stringify p) = Fin 3600"
  by (simp add: expiresIn_def)

lemma parseInt_3600: "parseInt (JNum 3600) = Fin 3600"
  by (simp add: parseInt_def parseInt_str_def show_int_def digit_char_def is_space_def
      is_digit_def digits_val_def digit_val_def Let_def)

lemma expiresIn_code [simp]: "expiresIn (code_authData c) = Fin 3600"
  by (simp add: expiresIn_def code_authData_def parseInt_3600)

lemma checkAuthFromHash_no_code:
  "url_code s = None \<Longrightarrow>
   checkAuthFromHash jwt tz now s =
     finish_check
       (case storage s of
          None \<Rightarrow> set_loading True s
        | Some Malformed \<Rightarrow> clearAuthData (set_loading True s)
        | Some (Saved authData) \<Rightarrow>
            if in_future (td_tokenExpiry authData) now
            then (case setAuthenticatedUser jwt tz now authData (set_loading True s) of
                    Inl err \<Rightarrow> clearAuthData (set_loading True s)
                  | Inr s2 \<Rightarrow> s2)
            else clearAuthData (set_loading True s))"
  by (simp add: checkAuthFromHash_def Let_def)

text \<open>The restore of a persisted session whose expiry is after \<open>now\<close>.\<close>

lemma restore_future:
  assumes "storage s = Some (Saved (stringify p))" and "url_code s = None"
    and "tokenExpiry p = At e" and "now < e"
  shows "authStatus (checkAuthFromHash jwt tz now s) =
           \<lparr>isAuthenticated = True,
            username = (if username p = [] then ''User'' else username p),
            token = token p,
            tokenExpiry = At (utcTime tz (localTime tz now + 3600 * 1000)),
            loading = False\<rparr>"
    and "storage (checkAuthFromHash jwt tz now s) =
           Some (Saved (stringify (authStatus (checkAuthFromHash jwt tz now s))))"
    and "emitted (checkAuthFromHash jwt tz now s) =
           emitted s @ [authStatus (checkAuthFromHash jwt tz now s),
                        authStatus (checkAuthFromHash jwt tz now s)]"
proof -
  obtain s2 where s2:
    "setAuthenticatedUser jwt tz now (stringify p) (set_loading True s) = Inr s2"
    "authStatus s2 =
       \<lparr>isAuthenticated = True, username = extract_username jwt (stringify p),
        token = or_s (or_s (id_token (stringify p)) (access_token (stringify p)))
                  (td_token (stringify p)),
        tokenExpiry = At (utcTime tz (localTime tz now + 3600 * 1000)), loading = False\<rparr>"
    "storage s2 = Some (Saved (stringify (authStatus s2)))"
    "emitted s2 = emitted (set_loading True s) @ [authStatus s2]"
    using setAuthenticatedUser_Fin [OF expiresIn_stringify] by blast
  have c: "checkAuthFromHash jwt tz now s = finish_check s2"
    using assms s2(1) by (simp add: checkAuthFromHash_no_code in_future_def)
  have a: "authStatus (finish_check s2) = authStatus s2"
    by (simp add: s2(2))
  show "authStatus (checkAuthFromHash jwt tz now s) =
           \<lparr>isAuthenticated = True,
            username = (if username p = [] then ''User'' else username p),
            token = token p,
            tokenExpiry = At (utcTime tz (localTime tz now + 3600 * 1000)),
            loading = False\<rparr>"
    unfolding c a by (simp add: s2(2) extract_username_stringify)
  show "storage (checkAuthFromHash jwt tz now s) =
           Some (Saved (stringify (authStatus (checkAuthFromHash jwt tz now s))))"
    unfolding c a by (simp add: s2(3))
  show "emitted (checkAuthFromHash jwt tz now s) =
           emitted s @ [authStatus (checkAuthFromHash jwt tz now s),
                        authStatus (checkAuthFromHash jwt tz now s)]"
    unfolding c a by (simp add: s2(4)) (simp add: s2(2))
qed

lemma restore_not_future:
  assumes "storage s = Some (Saved td)" and "url_code s = None"
    and "\<not> in_future (td_tokenExpiry td) now"
  shows "authStatus (checkAuthFromHash jwt tz now s) = initial_session"
    and "storage (checkAuthFromHash jwt tz now s) = None"
  using assms by (simp_all add: checkAuthFromHash_no_code initial_session_def)

text \<open>
  C1, as the code has it. Let the storage hold a persisted session \<open>p\<close> and the URL carry
  no code. If the \<^verbatim>\<open>tokenExpiry\<close> of \<open>p\<close> denotes an instant strictly after
  \<open>now\<close>, the startup check ends authenticated, with the token of \<open>p\<close> and with the user
  name of \<open>p\<close> when that name is not empty; an empty name is replaced by the default
  \<^verbatim>\<open>"User"\<close>. If the \<^verbatim>\<open>tokenExpiry\<close> is absent, unreadable or not after \<open>now\<close>, the
  check ends with the cleared session and without the persisted copy.
\<close>

theorem restore_persisted_session:
  assumes "storage s = Some (Saved (stringify p))" and "url_code s = None"
  shows "(\<forall>e. tokenExpiry p = At e \<and> now < e \<longrightarrow>
            isAuthenticated (authStatus (checkAuthFromHash jwt tz now s)) \<and>
            token (authStatus (checkAuthFromHash jwt tz now s)) = token p \<and>
            username (authStatus (checkAuthFromHash jwt tz now s)) =
              (if username p = [] then ''User'' else username p)) \<and>
         (tokenExpiry p = NoExpiry \<or> tokenExpiry p = BadExpiry \<or>
            (\<exists>e. tokenExpiry p = At e \<and> e \<le> now) \<longrightarrow>
            authStatus (checkAuthFromHash jwt tz now s) =
              \<lparr>isAuthenticated = False, username = [], token = Some [],
               tokenExpiry = NoExpiry, loading = False\<rparr> \<and>
            storage (checkAuthFromHash jwt tz now s) = None)"
proof (intro conjI allI impI)
  fix e assume e: "tokenExpiry p = At e \<and> now < e"
  note r = restore_future(1) [OF assms, of e now jwt tz]
  from e r show "isAuthenticated (authStatus (checkAuthFromHash jwt tz now s))" by simp
  from e r show "token (authStatus (checkAuthFromHash jwt tz now s)) = token p" by simp
  from e r show "username (authStatus (checkAuthFromHash jwt tz now s)) =
      (if username p = [] then ''User'' else username p)" by simp
next
  assume n: "tokenExpiry p = NoExpiry \<or> tokenExpiry p = BadExpiry \<or>
      (\<exists>e. tokenExpiry p = At e \<and> e \<le> now)"
  then have nf: "\<not> in_future (td_tokenExpiry (stringify p)) now"
    by (auto simp: in_future_def)
  from restore_not_future [OF assms nf]
  show "authStatus (checkAuthFromHash jwt tz now s) =
      \<lparr>isAuthenticated = False, username = [], token = Some [],
       tokenExpiry = NoExpiry, loading = False\<rparr>"
    and "storage (checkAuthFromHash jwt tz now s) = None"
    by (simp_all add: initial_session_def)
qed

theorem restore_persisted_session_witness:
  "(isAuthenticated
      (authStatus (checkAuthFromHash no_jwt berlin 1000 (persisted alice_session))) \<and>
    token (authStatus (checkAuthFromHash no_jwt berlin 1000 (persisted alice_session))) =
      Some ''id-xyz'' \<and>
    username (authStatus (checkAuthFromHash no_jwt berlin 1000 (persisted alice_session))) =
      ''alice'') \<and>
   (authStatus (checkAuthFromHash no_jwt berlin 900000 (persisted alice_session)) =
      initial_session \<and>
    storage (checkAuthFromHash no_jwt berlin 900000 (persisted alice_session)) = None)"
  using restore_persisted_session
      [of "persisted alice_session" alice_session 1000 no_jwt berlin]
    restore_persisted_session
      [of "persisted alice_session" alice_session 900000 no_jwt berlin]
  by (simp add: persisted_def alice_session_def initial_session_def)

text \<open>
  The claim as it is written fails for a persisted session whose user name is empty: the
  restored name is \<^verbatim>\<open>"User"\<close>.
\<close>

theorem restore_empty_username_counterexample:
  "tokenExpiry empty_name_session = At 5000 \<and>
   isAuthenticated
     (authStatus (checkAuthFromHash no_jwt berlin 1000 (persisted empty_name_session))) \<and>
   username (authStatus (checkAuthFromHash no_jwt berlin 1000 (persisted empty_name_session)))
     = ''User'' \<and>
   username empty_name_session = []"
proof -
  have "storage (persisted empty_name_session) = Some (Saved (stringify empty_name_session))"
    "url_code (persisted empty_name_session) = None"
    "tokenExpiry empty_name_session = At 5000" "(1000::int) < 5000"
    "username empty_name_session = []"
    by (simp_all add: persisted_def empty_name_session_def)
  from restore_future(1) [OF this(1,2,3,4), of no_jwt berlin] this(3,5)
  show ?thesis by simp
qed

text \<open>
  What the restore does to the expiry: the object handed to \<^verbatim>\<open>setAuthenticatedUser\<close>
  has no \<^verbatim>\<open>expires_in\<close>, and the new expiry is computed from \<open>now\<close> alone, whatever
  the persisted expiry was: it is the instant whose local reading is 3600 seconds after
  the local reading of \<open>now\<close>.
\<close>

lemma restore_expiry_from_clock:
  assumes "storage s = Some (Saved (stringify p))" and "url_code s = None"
    and "tokenExpiry p = At e" and "now < e"
  shows "expires_in (stringify p) = JUndefined \<and>
         tokenExpiry (authStatus (checkAuthFromHash jwt tz now s)) =
           At (utcTime tz (localTime tz now + 3600 * 1000)) \<and>
         storage (checkAuthFromHash jwt tz now s) =
           Some (Saved (stringify (authStatus (checkAuthFromHash jwt tz now s))))"
  using restore_future(1,2) [OF assms, of jwt tz] by simp

text \<open>In a zone with one offset that is 3600 seconds after \<open>now\<close>.\<close>

lemma fixed_zone_adds: "utcTime (fixed_zone off) (localTime (fixed_zone off) t + d) = t + d"
  by (simp add: fixed_zone_def)

text \<open>
  In the hour before the clock is set back by an hour it is 7200 seconds after \<open>now\<close>;
  after a set-back by two hours it can be 3600 seconds before \<open>now\<close>.
\<close>

lemma set_back_before:
  "t < T \<Longrightarrow> T \<le> t + 3600000 \<Longrightarrow> after \<le> before \<Longrightarrow>
   utcTime (set_back T before after) (localTime (set_back T before after) t + 3600000) =
     t + 3600000 + (before - after)"
  by (simp add: set_back_def)

lemma set_back_after:
  "T \<le> t \<Longrightarrow> t + 3600000 < T + (before - after) \<Longrightarrow>
   utcTime (set_back T before after) (localTime (set_back T before after) t + 3600000) =
     t + 3600000 - (before - after)"
  by (simp add: set_back_def)

text \<open>
  C10 at a failing input. In the zone Europe/Berlin a page is loaded at
  2025-10-26T00:30:00Z, half an hour before the clock is set back, with a persisted
  session that expires at 00:36:40Z and no code in the URL. The restored session expires
  at 02:30:00Z: 7200 seconds after the restore, not 3600.
\<close>

theorem restore_before_clocks_go_back:
  "tokenExpiry autumn_session = At 1761439000000 \<and>
   isAuthenticated
     (authStatus (checkAuthFromHash no_jwt berlin 1761438600000 (persisted autumn_session))) \<and>
   tokenExpiry
     (authStatus (checkAuthFromHash no_jwt berlin 1761438600000 (persisted autumn_session))) =
     At (1761438600000 + 7200 * 1000)"
proof -
  have h: "storage (persisted autumn_session) = Some (Saved (stringify autumn_session))"
    "url_code (persisted autumn_session) = None"
    "tokenExpiry autumn_session = At 1761439000000" "(1761438600000::int) < 1761439000000"
    by (simp_all add: persisted_def autumn_session_def)
  have z: "utcTime berlin (localTime berlin 1761438600000 + 3600 * 1000) =
      1761438600000 + 7200 * 1000"
    by (simp add: berlin_def set_back_def)
  from restore_future(1) [OF h, of no_jwt berlin] h(3) z show ?thesis by simp
qed

lemma checkAuthFromHash_emitted:
  "\<exists>new. emitted (checkAuthFromHash jwt tz now s) = emitted s @ new \<and> new \<noteq> [] \<and>
         length new \<le> 2 \<and>
         last new = authStatus (checkAuthFromHash jwt tz now s) \<and>
         (\<forall>x\<in>set new. \<not> loading x)"
proof -
  have code: "\<exists>s2. setAuthenticatedUser jwt tz now (code_authData c) s1 = Inr s2 \<and>
      \<not> loading (authStatus s2) \<and> emitted s2 = emitted s1 @ [authStatus s2]" for c s1
    using setAuthenticatedUser_Fin [OF expiresIn_code, of jwt tz now c s1] by auto
  have any: "(\<exists>s2. setAuthenticatedUser jwt tz now td s1 = Inr s2 \<and>
      \<not> loading (authStatus s2) \<and> emitted s2 = emitted s1 @ [authStatus s2]) \<or>
      setAuthenticatedUser jwt tz now td s1 = Inl RangeError" for td s1
  proof (cases "expiresIn td")
    case NaN
    then show ?thesis by (simp add: setAuthenticatedUser_NaN)
  next
    case (Fin n)
    from setAuthenticatedUser_Fin [OF Fin, of jwt tz now s1] show ?thesis by auto
  qed
  have stored: "\<exists>new. emitted (finish_check
        (case setAuthenticatedUser jwt tz now td (set_loading True s) of
           Inl err \<Rightarrow> clearAuthData (set_loading True s) | Inr s2 \<Rightarrow> s2)) = emitted s @ new \<and>
      new \<noteq> [] \<and> length new \<le> 2 \<and>
      last new = authStatus (finish_check
        (case setAuthenticatedUser jwt tz now td (set_loading True s) of
           Inl err \<Rightarrow> clearAuthData (set_loading True s) | Inr s2 \<Rightarrow> s2)) \<and>
      (\<forall>x\<in>set new. \<not> loading x)" for td
    using any [of td "set_loading True s"] by (auto simp: initial_session_def)
  show ?thesis
  proof (cases "\<exists>c. url_code s = Some c \<and> c \<noteq> []")
    case True
    then obtain c where c: "url_code s = Some c" "c \<noteq> []" by blast
    obtain s2 where s2: "setAuthenticatedUser jwt tz now (code_authData c) (set_loading True s)
        = Inr s2" "\<not> loading (authStatus s2)"
      "emitted s2 = emitted (set_loading True s) @ [authStatus s2]"
      using code by blast
    have "checkAuthFromHash jwt tz now s = finish_check (s2\<lparr>url_code := None\<rparr>)"
      using c s2(1) by (simp add: checkAuthFromHash_def Let_def)
    then show ?thesis using s2(2,3) by simp
  next
    case False
    then have "checkAuthFromHash jwt tz now s =
       finish_check
         (case storage s of
            None \<Rightarrow> set_loading True s
          | Some Malformed \<Rightarrow> clearAuthData (set_loading True s)
          | Some (Saved authData) \<Rightarrow>
              if in_future (td_tokenExpiry authData) now
              then (case setAuthenticatedUser jwt tz now authData (set_loading True s) of
                      Inl err \<Rightarrow> clearAuthData (set_loading True s)
                    | Inr s2 \<Rightarrow> s2)
              else clearAuthData (set_loading True s))"
      by (cases "url_code s") (simp_all add: checkAuthFromHash_def Let_def)
    then show ?thesis
      using stored
      by (auto simp: initial_session_def split: option.splits stored.splits)
  qed
qed

text \<open>
  C5, as the code has it. Every run of the startup check, in either branch, ends with
  \<open>loading = False\<close> and emits the change notification at its end, after the session
  has been set: the last snapshot the listeners see is the final session. It emits no
  notification at its start: every snapshot emitted during the run has
  \<open>loading = False\<close>.
\<close>

theorem startup_check_notifications:
  "\<not> loading (authStatus (checkAuthFromHash jwt tz now s)) \<and>
   (\<exists>new. emitted (checkAuthFromHash jwt tz now s) = emitted s @ new \<and> new \<noteq> [] \<and>
          last new = authStatus (checkAuthFromHash jwt tz now s) \<and>
          (\<forall>x\<in>set new. \<not> loading x))"
proof -
  obtain new where n: "emitted (checkAuthFromHash jwt tz now s) = emitted s @ new" "new \<noteq> []"
    "last new = authStatus (checkAuthFromHash jwt tz now s)" "\<forall>x\<in>set new. \<not> loading x"
    using checkAuthFromHash_emitted by blast
  from n(2,3,4) have "\<not> loading (authStatus (checkAuthFromHash jwt tz now s))"
    using last_in_set by metis
  with n show ?thesis by blast
qed

theorem startup_check_notifications_witness:
  "\<not> loading (authStatus (checkAuthFromHash no_jwt berlin 1000 (persisted alice_session))) \<and>
   emitted (checkAuthFromHash no_jwt berlin 1000 (persisted alice_session)) =
     [authStatus (checkAuthFromHash no_jwt berlin 1000 (persisted alice_session)),
      authStatus (checkAuthFromHash no_jwt berlin 1000 (persisted alice_session))]"
proof -
  have h: "storage (persisted alice_session) = Some (Saved (stringify alice_session))"
    "url_code (persisted alice_session) = None"
    "tokenExpiry alice_session = At 900000" "(1000::int) < 900000"
    "emitted (persisted alice_session) = []"
    by (simp_all add: persisted_def alice_session_def)
  from startup_check_notifications [of no_jwt berlin 1000 "persisted alice_session"]
    restore_future(3) [OF h(1,2,3,4), of no_jwt berlin] h(5)
  show ?thesis by simp
qed

lemma code_exchange:
  assumes "url_code s = Some c" and "c \<noteq> []"
  shows "authStatus (checkAuthFromHash jwt tz now s) =
           \<lparr>isAuthenticated = True, username = ''Authenticated User'',
            token = Some (''id-'' @ c),
            tokenExpiry = At (utcTime tz (localTime tz now + 3600 * 1000)),
            loading = False\<rparr>"
    and "emitted (checkAuthFromHash jwt tz now s) =
           emitted s @ [authStatus (checkAuthFromHash jwt tz now s),
                        authStatus (checkAuthFromHash jwt tz now s)]"
proof -
  obtain s2 where s2:
    "setAuthenticatedUser jwt tz now (code_authData c) (set_loading True s) = Inr s2"
    "authStatus s2 =
       \<lparr>isAuthenticated = True, username = extract_username jwt (code_authData c),
        token = or_s (or_s (id_token (code_authData c)) (access_token (code_authData c)))
                  (td_token (code_authData c)),
        tokenExpiry = At (utcTime tz (localTime tz now + 3600 * 1000)), loading = False\<rparr>"
    "emitted s2 = emitted (set_loading True s) @ [authStatus s2]"
    using setAuthenticatedUser_Fin [OF expiresIn_code] by blast
  have c: "checkAuthFromHash jwt tz now s = finish_check (s2\<lparr>url_code := None\<rparr>)"
    using assms s2(1) by (simp add: checkAuthFromHash_def Let_def)
  have a: "authStatus s2 =
      \<lparr>isAuthenticated = True, username = ''Authenticated User'', token = Some (''id-'' @ c),
       tokenExpiry = At (utcTime tz (localTime tz now + 3600 * 1000)), loading = False\<rparr>"
    by (simp add: s2(2) code_authData_def extract_username_def or_s_def truthy_s_def)
  show "authStatus (checkAuthFromHash jwt tz now s) =
           \<lparr>isAuthenticated = True, username = ''Authenticated User'',
            token = Some (''id-'' @ c),
            tokenExpiry = At (utcTime tz (localTime tz now + 3600 * 1000)),
            loading = False\<rparr>"
    unfolding c by (simp add: a)
  show "emitted (checkAuthFromHash jwt tz now s) =
           emitted s @ [authStatus (checkAuthFromHash jwt tz now s),
                        authStatus (checkAuthFromHash jwt tz now s)]"
    unfolding c by (simp add: s2(3)) (simp add: a)
qed

text \<open>
  The claim as it is written fails in both branches: with a code in the URL, and with a
  persisted session, no emitted snapshot has \<open>loading = True\<close>.
\<close>

theorem no_loading_emission_counterexample:
  "map loading
     (emitted (checkAuthFromHash no_jwt berlin 1000 (page_load (Some ''abc'') initial_state)))
     = [False, False] \<and>
   map loading (emitted (checkAuthFromHash no_jwt berlin 1000 (persisted alice_session)))
     = [False, False]"
proof -
  have h: "storage (persisted alice_session) = Some (Saved (stringify alice_session))"
    "url_code (persisted alice_session) = None"
    "tokenExpiry alice_session = At 900000" "(1000::int) < 900000"
    "emitted (persisted alice_session) = []"
    by (simp_all add: persisted_def alice_session_def)
  have g: "url_code (page_load (Some ''abc'') initial_state) = Some ''abc''"
    "emitted (page_load (Some ''abc'') initial_state) = []"
    by (simp_all add: page_load_def)
  from restore_future(1,3) [OF h(1,2,3,4), of no_jwt berlin] h(5)
    code_exchange [OF g(1), of no_jwt berlin 1000] g(2)
  show ?thesis by simp
qed

lemma good_store_simps [simp]:
  "good_store None" "good_store (Some Malformed)"
  "good_store (Some (Saved td)) =
     (id_token td = None \<and> access_token td = None \<and> expires_in td = JUndefined \<and>
      truthy_s (td_token td))"
  by (simp_all add: good_store_def)

lemma auth_inv_mono: "auth_inv tz T s \<Longrightarrow> T \<subseteq> T' \<Longrightarrow> auth_inv tz T' s"
  unfolding auth_inv_def by blast

lemma auth_inv_clear: "auth_inv tz T (clearAuthData s)"
  by (simp add: auth_inv_def initial_session_def)

lemma auth_inv_check:
  assumes "auth_inv tz T s" and "now \<in> T"
  shows "auth_inv tz T (checkAuthFromHash jwt tz now s)"
proof (cases "\<exists>c. url_code s = Some c \<and> c \<noteq> []")
  case True
  then obtain c where c: "url_code s = Some c" "c \<noteq> []" by blast
  obtain s2 where s2:
    "setAuthenticatedUser jwt tz now (code_authData c) (set_loading True s) = Inr s2"
    "authStatus s2 =
       \<lparr>isAuthenticated = True, username = extract_username jwt (code_authData c),
        token = or_s (or_s (id_token (code_authData c)) (access_token (code_authData c)))
                  (td_token (code_authData c)),
        tokenExpiry = At (utcTime tz (localTime tz now + 3600 * 1000)), loading = False\<rparr>"
    "storage s2 = Some (Saved (stringify (authStatus s2)))"
    using setAuthenticatedUser_Fin [OF expiresIn_code] by blast
  have "checkAuthFromHash jwt tz now s = finish_check (s2\<lparr>url_code := None\<rparr>)"
    using c s2(1) by (simp add: checkAuthFromHash_def Let_def)
  then show ?thesis
    using assms(2) s2(2,3)
    by (auto simp: auth_inv_def code_authData_def or_s_def truthy_s_def)
next
  case False
  from assms(1) have g: "good_store (storage s)" by (simp add: auth_inv_def)
  have eq: "checkAuthFromHash jwt tz now s =
     finish_check
       (case storage s of
          None \<Rightarrow> set_loading True s
        | Some Malformed \<Rightarrow> clearAuthData (set_loading True s)
        | Some (Saved authData) \<Rightarrow>
            if in_future (td_tokenExpiry authData) now
            then (case setAuthenticatedUser jwt tz now authData (set_loading True s) of
                    Inl err \<Rightarrow> clearAuthData (set_loading True s)
                  | Inr s2 \<Rightarrow> s2)
            else clearAuthData (set_loading True s))"
    using False by (cases "url_code s") (simp_all add: checkAuthFromHash_def Let_def)
  show ?thesis
  proof (cases "storage s")
    case None
    then show ?thesis using assms(1) by (simp add: eq auth_inv_def)
  next
    case (Some st)
    show ?thesis
    proof (cases st)
      case Malformed
      then show ?thesis using Some by (simp add: eq auth_inv_def initial_session_def)
    next
      case (Saved td)
      show ?thesis
      proof (cases "in_future (td_tokenExpiry td) now")
        case False
        then show ?thesis using Some Saved by (simp add: eq auth_inv_def initial_session_def)
      next
        case True
        from g Some Saved have td: "id_token td = None" "access_token td = None"
          "expires_in td = JUndefined" "truthy_s (td_token td)" by simp_all
        then have "expiresIn td = Fin 3600" by (simp add: expiresIn_def)
        from setAuthenticatedUser_Fin [OF this, of jwt tz now "set_loading True s"]
        obtain s2 where s2:
          "setAuthenticatedUser jwt tz now td (set_loading True s) = Inr s2"
          "authStatus s2 =
             \<lparr>isAuthenticated = True, username = extract_username jwt td,
              token = or_s (or_s (id_token td) (access_token td)) (td_token td),
              tokenExpiry = At (utcTime tz (localTime tz now + 3600 * 1000)), loading = False\<rparr>"
          "storage s2 = Some (Saved (stringify (authStatus s2)))"
          by blast
        show ?thesis
          using Some Saved True s2 td assms(2) by (auto simp: eq auth_inv_def)
      qed
    qed
  qed
qed

lemma auth_inv_exec:
  "auth_inv tz T s \<Longrightarrow> auth_inv tz (T \<union> set (check_times [x])) (exec jwt tz s x)"
proof (cases x)
  case (Load c)
  then show "auth_inv tz T s \<Longrightarrow> ?thesis"
    by (simp add: page_load_def auth_inv_def initial_session_def)
next
  case (Check now)
  then show "auth_inv tz T s \<Longrightarrow> ?thesis"
    using auth_inv_check [of tz "insert now T" s now jwt]
      auth_inv_mono [of tz T s "insert now T"]
    by auto
next
  case Logout
  then show "auth_inv tz T s \<Longrightarrow> ?thesis" by (simp add: logoutUser_def auth_inv_clear)
next
  case (Watchdog now)
  then show "auth_inv tz T s \<Longrightarrow> ?thesis"
    by (simp add: expiry_tick_def auth_inv_clear split: expiry.splits)
next
  case Redirect
  then show "auth_inv tz T s \<Longrightarrow> ?thesis"
    by (simp add: redirect_def auth_inv_def)
qed

lemma check_times_append: "check_times (xs @ ys) = check_times xs @ check_times ys"
  by (induction xs rule: check_times.induct) simp_all

lemma auth_inv_run: "auth_inv tz (set (check_times ops)) (run jwt tz ops)"
proof (induction ops rule: rev_induct)
  case Nil
  show ?case by (simp add: run_def initial_state_def auth_inv_def initial_session_def)
next
  case (snoc x xs)
  have "run jwt tz (xs @ [x]) = exec jwt tz (run jwt tz xs) x" by (simp add: run_def)
  moreover have "set (check_times (xs @ [x])) = set (check_times xs) \<union> set (check_times [x])"
    by (simp add: check_times_append)
  ultimately show ?case using auth_inv_exec [OF snoc] by simp
qed

text \<open>
  What holds of every session reached from the empty one, with nothing persisted, by page
  loads, startup checks, logouts, ticks of the expiry watchdog and redirects, in any zone:
  if it is authenticated, its token is a non-empty string, and its expiry was set by one
  of the startup checks, to the instant whose local reading is 3600 seconds after the
  local reading of the instant \<open>t\<close> of that check.
\<close>

lemma authenticated_session_reached:
  "isAuthenticated (authStatus (run jwt tz ops)) \<Longrightarrow>
   (\<exists>tok. token (authStatus (run jwt tz ops)) = Some tok \<and> tok \<noteq> []) \<and>
   (\<exists>t\<in>set (check_times ops).
       tokenExpiry (authStatus (run jwt tz ops)) =
         At (utcTime tz (localTime tz t + 3600 * 1000)))"
  using auth_inv_run [of tz ops jwt]
  by (auto simp: auth_inv_def truthy_s_def split: option.splits)

text \<open>In a zone with one offset that expiry is after the check.\<close>

lemma authenticated_session_fixed_zone:
  "isAuthenticated (authStatus (run jwt (fixed_zone off) ops)) \<Longrightarrow>
   \<exists>t\<in>set (check_times ops). \<exists>e.
      tokenExpiry (authStatus (run jwt (fixed_zone off) ops)) = At e \<and> t < e"
proof -
  assume "isAuthenticated (authStatus (run jwt (fixed_zone off) ops))"
  from authenticated_session_reached [OF this] obtain t where t: "t \<in> set (check_times ops)"
    "tokenExpiry (authStatus (run jwt (fixed_zone off) ops)) = At (t + 3600 * 1000)"
    by (auto simp: fixed_zone_adds)
  have "t < t + 3600 * 1000" by simp
  with t show ?thesis by blast
qed

text \<open>
  C2 at a failing input. In the zone Antarctica/Troll, whose clock is set back by two
  hours at 2025-10-26T01:00:00Z, the browser returns from the identity provider with a
  code and the startup check runs at 01:10:00Z. The session is authenticated, and the
  expiry stored for it is 00:10:00Z, an hour before the check that set it.
\<close>

theorem login_after_two_hour_set_back:
  "check_times autumn_login = [1761441000000] \<and>
   isAuthenticated (authStatus (run no_jwt troll autumn_login)) \<and>
   token (authStatus (run no_jwt troll autumn_login)) = Some ''id-abc'' \<and>
   tokenExpiry (authStatus (run no_jwt troll autumn_login)) = At (1761441000000 - 3600 * 1000)"
proof -
  have r: "run no_jwt troll autumn_login =
      checkAuthFromHash no_jwt troll 1761441000000 (page_load (Some ''abc'') initial_state)"
    by (simp add: run_def autumn_login_def)
  have g: "url_code (page_load (Some ''abc'') initial_state) = Some ''abc''"
    by (simp add: page_load_def)
  have z: "utcTime troll (localTime troll 1761441000000 + 3600 * 1000) =
      1761441000000 - 3600 * 1000"
    by (simp add: troll_def set_back_def)
  have c: "check_times autumn_login = [1761441000000]"
    by (simp add: autumn_login_def)
  from code_exchange(1) [OF g, of no_jwt troll 1761441000000] z
  show ?thesis unfolding r c by simp
qed

section \<open>Properties of the gallery component\<close>

lemma fetchPhotos_fields [simp]:
  "processingProgress (fetchPhotos r a) = processingProgress a"
  "processingMessage (fetchPhotos r a) = processingMessage a"
  "timers (fetchPhotos r a) = timers a"
  "loading' (fetchPhotos r a) = False"
  by (auto simp: fetchPhotos_def fetch_failed_def Let_def
      split: fetch_response.splits body.splits sum.splits jsval.splits)

lemma bindE_Inr [simp]: "bindE (Inr v) f = f v"
  by (simp add: bindE_def)

subsection \<open>Parsing the listing\<close>

lemma get_prop_sub:
  "v \<noteq> JNull \<Longrightarrow> v \<noteq> JUndefined \<Longrightarrow> get_prop v k = Inr (sub v k)"
  by (cases v) (simp_all add: sub_def)

lemma truthy_not_nullish: "truthy v \<Longrightarrow> v \<noteq> JNull \<and> v \<noteq> JUndefined"
  by (cases v) simp_all


text \<open>The guard \<^verbatim>\<open>v && v.k\<close> never throws.\<close>

lemma and_prop_ok:
  "\<exists>c. and_prop v k = Inr c \<and> truthy c = (truthy v \<and> truthy (sub v k)) \<and>
       (truthy c \<longrightarrow> c = sub v k)"
  by (cases "truthy v") (auto simp: and_prop_def get_prop_sub dest: truthy_not_nullish)







text \<open>The only item on which the callback throws is \<^verbatim>\<open>null\<close>.\<close>

lemma item_to_photo_null: "item_to_photo JNull = Inl TypeError"
  by (simp add: item_to_photo_def string_attr_def bindE_def)





subsection \<open>Failures of fetchPhotos\<close>

text \<open>
  A network failure sets the error and clears the loading flag, and leaves the photos as
  they were.
\<close>

lemma fetchPhotos_failure:
  "r = Rejected msg \<or> r = Response False b \<or> r = Response True (NotJson msg) \<Longrightarrow>
   error (fetchPhotos r a) \<noteq> None \<and> \<not> loading' (fetchPhotos r a) \<and>
   photos (fetchPhotos r a) = photos a"
  by (auto simp: fetchPhotos_def fetch_failed_def Let_def)

text \<open>A shape mismatch sets the error, clears the loading flag and empties the photos.\<close>

lemma fetchPhotos_shape_mismatch:
  assumes "\<forall>items. sub data ''Items'' \<noteq> JArr items"
  shows "error (fetchPhotos (Response True (Json data)) a) =
           Some ''Unexpected API response format'' \<and>
         \<not> loading' (fetchPhotos (Response True (Json data)) a) \<and>
         photos (fetchPhotos (Response True (Json data)) a) = []"
proof -
  obtain c where c: "and_prop data ''Items'' = Inr c" "truthy c \<longrightarrow> c = sub data ''Items''"
    using and_prop_ok by blast
  have "\<forall>items. c \<noteq> JArr items" using c(2) assms by (cases c) auto
  then show ?thesis
    by (cases c) (simp_all add: fetchPhotos_def Let_def c(1))
qed

lemma item_to_photo_listing1:
  "item_to_photo (JObj [(''ImageMetadataPK'', JObj [(''S'', JStr ''p1'')])]) = Inr photo1"
  by (simp add: item_to_photo_def string_attr_def extract_metadata_def and_prop_def photo1_def)

lemma fetchPhotos_listing1:
  "fetchPhotos (Response True (Json listing1)) a =
     a\<lparr>loading' := False, error := None, photos := [photo1]\<rparr>"
  by (simp add: fetchPhotos_def Let_def listing1_def and_prop_def item_to_photo_listing1)

lemma fetchPhotos_rejected:
  "fetchPhotos (Rejected msg) a =
     a\<lparr>loading' := False, error := Some (''Failed to fetch photos: '' @ msg)\<rparr>"
  by (simp add: fetchPhotos_def fetch_failed_def Let_def)

lemma listed_app_photos: "photos listed_app = [photo1]"
  by (simp add: listed_app_def fetchPhotos_listing1)

text \<open>
  C4 at a failing input. After a listing with one photo, a call of \<^verbatim>\<open>fetchPhotos\<close>
  that receives a response with \<^verbatim>\<open>ok = false\<close> sets the error and clears the loading
  flag, and the photo of the earlier listing is still there.
\<close>

theorem fetchPhotos_failure_keeps_photos:
  "photos (fetchPhotos (Response False (NotJson [])) listed_app) = [photo1] \<and>
   error (fetchPhotos (Response False (NotJson [])) listed_app) =
     Some ''Failed to fetch photos: Network response was not ok'' \<and>
   loading' (fetchPhotos (Response False (NotJson [])) listed_app) = False"
  by (simp add: fetchPhotos_def fetch_failed_def Let_def listed_app_photos)

subsection \<open>Upload\<close>

text \<open>
  C7. When no file is selected, \<^verbatim>\<open>uploadFile\<close> sets \<open>uploadError\<close> to
  \<^verbatim>\<open>"Please select a file to upload."\<close>, changes no other field of the component and
  sends no request.
\<close>

theorem uploadFile_without_file:
  "fileToUpload a = None \<Longrightarrow>
   uploadFile env a = (a\<lparr>uploadError := Some ''Please select a file to upload.''\<rparr>, [])"
  by (simp add: uploadFile_def)

theorem uploadFile_without_file_witness:
  "fileToUpload app0 = None \<and>
   uploadFile env500 app0 =
     (app0\<lparr>uploadError := Some ''Please select a file to upload.''\<rparr>, [])"
  using uploadFile_without_file [of app0 env500] by (simp add: app0_def)

lemma foldl_onprogress_fields [simp]:
  "fileToUpload (foldl onprogress a evs) = fileToUpload a \<and>
   uploadError (foldl onprogress a evs) = uploadError a \<and>
   uploading (foldl onprogress a evs) = uploading a \<and>
   uploadSuccess (foldl onprogress a evs) = uploadSuccess a"
proof (induction evs arbitrary: a)
  case Nil
  show ?case by simp
next
  case (Cons e evs)
  show ?case by (cases e) (simp add: Cons.IH)
qed

lemma show_nat_500: "show_nat 500 = ''500''"
  by (simp add: digit_char_def)

text \<open>
  C6. Select a file \<open>f\<close>, then run \<^verbatim>\<open>uploadFile\<close>. If the transfer ends with a status
  outside 200..299, \<open>fileToUpload\<close> is still \<open>f\<close>, \<open>uploadError\<close> is a message that
  contains the status in decimal, and \<open>uploading\<close> is false. If the transfer ends with a
  network error, \<open>fileToUpload\<close> is still \<open>f\<close>, \<open>uploadError\<close> is the message of that
  error, and \<open>uploading\<close> is false. If the transfer ends with a status in 200..299,
  \<open>fileToUpload\<close> is reset to \<^verbatim>\<open>null\<close>.
\<close>

theorem upload_outcomes:
  "(xhr_outcome env = Loaded status statusText \<and> \<not> (200 \<le> status \<and> status < 300) \<longrightarrow>
      fileToUpload (fst (uploadFile env (handleFileSelect (Some f) a))) = Some f \<and>
      uploadError (fst (uploadFile env (handleFileSelect (Some f) a))) =
        Some (''Upload failed: Upload failed with status: '' @ show_nat status @ '' - ''
              @ statusText) \<and>
      \<not> uploading (fst (uploadFile env (handleFileSelect (Some f) a)))) \<and>
   (xhr_outcome env = NetworkError \<longrightarrow>
      fileToUpload (fst (uploadFile env (handleFileSelect (Some f) a))) = Some f \<and>
      uploadError (fst (uploadFile env (handleFileSelect (Some f) a))) =
        Some ''Upload failed: A network error occurred during the upload.'' \<and>
      \<not> uploading (fst (uploadFile env (handleFileSelect (Some f) a)))) \<and>
   (xhr_outcome env = Loaded status statusText \<and> 200 \<le> status \<and> status < 300 \<longrightarrow>
      fileToUpload (fst (uploadFile env (handleFileSelect (Some f) a))) = None \<and>
      \<not> uploading (fst (uploadFile env (handleFileSelect (Some f) a))))"
  by (simp add: uploadFile_def handleFileSelect_def uploadToS3_def Let_def monitor_start_def)

theorem upload_outcomes_witness:
  "(fileToUpload (fst (uploadFile env500 (handleFileSelect (Some pic) app0))) = Some pic \<and>
    uploadError (fst (uploadFile env500 (handleFileSelect (Some pic) app0))) =
      Some ''Upload failed: Upload failed with status: 500 - Internal Server Error'' \<and>
    \<not> uploading (fst (uploadFile env500 (handleFileSelect (Some pic) app0)))) \<and>
   (fileToUpload (fst (uploadFile env_offline (handleFileSelect (Some pic) app0))) = Some pic \<and>
    uploadError (fst (uploadFile env_offline (handleFileSelect (Some pic) app0))) =
      Some ''Upload failed: A network error occurred during the upload.'') \<and>
   fileToUpload (fst (uploadFile env204 (handleFileSelect (Some pic) app0))) = None"
  using upload_outcomes [of env500 500 "''Internal Server Error''" pic app0]
    upload_outcomes [of env_offline 500 "''Internal Server Error''" pic app0]
    upload_outcomes [of env204 204 "''No Content''" pic app0]
  by (simp add: env500_def env204_def env_offline_def show_nat_500 del: show_nat.simps)

subsection \<open>Modal\<close>

lemma next_due_None: "next_due T ts = None \<Longrightarrow> x \<in> set ts \<Longrightarrow> \<not> fst x \<le> T"
  by (induction ts) (auto split: option.splits if_splits)

lemma fire_showModal [simp]: "showModal (fire cb d a) = showModal a"
  by (cases cb) simp_all

lemma fire_cleared:
  "selectedPhoto a = None \<and> \<not> modalLoading a \<Longrightarrow>
   selectedPhoto (fire cb d a) = None \<and> \<not> modalLoading (fire cb d a)"
  by (cases cb) simp_all

lemma fire_timers: "set (timers a) \<subseteq> set (timers (fire cb d a))"
  by (cases cb) auto

lemma advance_showModal: "showModal (advance T a) = showModal a"
proof (induction T a rule: advance.induct)
  case (1 T a)
  show ?case
  proof (cases "next_due T (timers a)")
    case None
    then show ?thesis by (subst advance.simps) simp
  next
    case (Some x)
    then show ?thesis using 1 [OF Some] by (subst advance.simps) simp
  qed
qed

lemma advance_cleared:
  "selectedPhoto a = None \<and> \<not> modalLoading a \<Longrightarrow>
   selectedPhoto (advance T a) = None \<and> \<not> modalLoading (advance T a)"
proof (induction T a rule: advance.induct)
  case (1 T a)
  show ?case
  proof (cases "next_due T (timers a)")
    case None
    then show ?thesis using "1.prems" by (subst (1 2) advance.simps) simp
  next
    case (Some x)
    have "selectedPhoto (fire (snd x) (fst x) (a\<lparr>timers := remove1 x (timers a)\<rparr>)) = None \<and>
          \<not> modalLoading (fire (snd x) (fst x) (a\<lparr>timers := remove1 x (timers a)\<rparr>))"
      using "1.prems" by (intro fire_cleared) simp
    from "1.IH" [OF Some this] Some show ?thesis by (subst (1 2) advance.simps) simp
  qed
qed

text \<open>Once a pending \<open>ClearModal\<close> is due, the modal is cleared, whatever else is pending.\<close>

lemma advance_clears_modal:
  "(d, ClearModal) \<in> set (timers a) \<Longrightarrow> d \<le> T \<Longrightarrow>
   selectedPhoto (advance T a) = None \<and> \<not> modalLoading (advance T a)"
proof (induction T a rule: advance.induct)
  case (1 T a)
  show ?case
  proof (cases "next_due T (timers a)")
    case None
    from next_due_None [OF None "1.prems"(1)] "1.prems"(2) show ?thesis by simp
  next
    case (Some x)
    let ?a' = "fire (snd x) (fst x) (a\<lparr>timers := remove1 x (timers a)\<rparr>)"
    have step: "advance T a = advance T ?a'"
      using Some by (subst advance.simps) simp
    show ?thesis
    proof (cases "x = (d, ClearModal)")
      case True
      then have "selectedPhoto ?a' = None \<and> \<not> modalLoading ?a'" by simp
      from advance_cleared [OF this] step show ?thesis by simp
    next
      case False
      with "1.prems"(1) have "(d, ClearModal) \<in> set (remove1 x (timers a))" by simp
      then have "(d, ClearModal) \<in> set (timers ?a')"
        using fire_timers [of "a\<lparr>timers := remove1 x (timers a)\<rparr>" "snd x" "fst x"] by auto
      from "1.IH" [OF Some this "1.prems"(2)] step show ?thesis by simp
    qed
  qed
qed

text \<open>
  C9. Call \<^verbatim>\<open>closePhotoModal\<close> at \<open>t1\<close> and again at \<open>t2\<close>, from any state of the
  component, and let the clock pass the 300 ms after the second call; compare with one
  call at \<open>t1\<close> and the clock past its 300 ms. Both runs are total functions of the
  model (nothing is thrown), and \<open>showModal\<close>, \<open>selectedPhoto\<close> and \<open>modalLoading\<close>
  are the same in both: false, \<^verbatim>\<open>null\<close> and false.
\<close>

theorem closePhotoModal_twice:
  assumes "t1 + 300 \<le> T1" and "t2 + 300 \<le> T2"
  shows "showModal (advance T2 (closePhotoModal t2 (closePhotoModal t1 a))) =
           showModal (advance T1 (closePhotoModal t1 a)) \<and>
         selectedPhoto (advance T2 (closePhotoModal t2 (closePhotoModal t1 a))) =
           selectedPhoto (advance T1 (closePhotoModal t1 a)) \<and>
         modalLoading (advance T2 (closePhotoModal t2 (closePhotoModal t1 a))) =
           modalLoading (advance T1 (closePhotoModal t1 a)) \<and>
         \<not> showModal (advance T1 (closePhotoModal t1 a)) \<and>
         selectedPhoto (advance T1 (closePhotoModal t1 a)) = None \<and>
         \<not> modalLoading (advance T1 (closePhotoModal t1 a))"
proof -
  have one: "selectedPhoto (advance T1 (closePhotoModal t1 a)) = None \<and>
             \<not> modalLoading (advance T1 (closePhotoModal t1 a))"
    using assms(1)
    by (intro advance_clears_modal [of "t1 + 300"]) (simp_all add: closePhotoModal_def)
  have two: "selectedPhoto (advance T2 (closePhotoModal t2 (closePhotoModal t1 a))) = None \<and>
             \<not> modalLoading (advance T2 (closePhotoModal t2 (closePhotoModal t1 a)))"
    using assms(2)
    by (intro advance_clears_modal [of "t2 + 300"]) (simp_all add: closePhotoModal_def)
  have "\<not> showModal (advance T1 (closePhotoModal t1 a))"
    "\<not> showModal (advance T2 (closePhotoModal t2 (closePhotoModal t1 a)))"
    by (simp_all add: advance_showModal closePhotoModal_def)
  with one two show ?thesis by simp
qed

theorem closePhotoModal_twice_witness:
  "(50::nat) + 300 \<le> 1000 \<and> (100::nat) + 300 \<le> 1000 \<and>
   showModal (openPhotoModal photo1 app0) \<and>
   \<not> showModal (advance 1000 (closePhotoModal 100 (closePhotoModal 50
        (openPhotoModal photo1 app0)))) \<and>
   selectedPhoto (advance 1000 (closePhotoModal 100 (closePhotoModal 50
        (openPhotoModal photo1 app0)))) = None \<and>
   \<not> modalLoading (advance 1000 (closePhotoModal 100 (closePhotoModal 50
        (openPhotoModal photo1 app0))))"
  using closePhotoModal_twice [of 50 1000 100 1000 "openPhotoModal photo1 app0"]
  by (simp add: openPhotoModal_def)

subsection \<open>Monitoring after an upload\<close>


text \<open>A call of \<^verbatim>\<open>fetchPhotos\<close> that nothing comes between is its two halves.\<close>

lemma fetchPhotos_split: "fetchPhotos r a = fetch_settle r (fetch_start a)"
  by (simp add: fetchPhotos_def fetch_settle_def fetch_start_def Let_def)

lemma fetch_start_fields [simp]:
  "processingProgress (fetch_start a) = processingProgress a"
  "processingMessage (fetch_start a) = processingMessage a"
  "photos (fetch_start a) = photos a"
  by (simp_all add: fetch_start_def)

lemma fetch_settle_fields [simp]:
  "processingProgress (fetch_settle r a) = processingProgress a"
  "processingMessage (fetch_settle r a) = processingMessage a"
  by (auto simp: fetch_settle_def fetch_failed_def Let_def
      split: fetch_response.splits body.splits sum.splits jsval.splits)













end
